theory Spec2Isabelle
  imports Complex_Main "HOL-Library.List_Lexorder" "HOL-Library.Char_ord" "HOL-Library.Multiset"
begin

section \<open>The review scheduler of learning_server.py\<close>

text \<open>
  The theory embeds the three review tools of \<^verbatim>\<open>learning_server.py\<close>
  (\<^verbatim>\<open>schedule_review\<close>, \<^verbatim>\<open>get_due_reviews\<close>, \<^verbatim>\<open>complete_review\<close>) and the two
  store functions they call (\<^verbatim>\<open>load_json_file\<close>, \<^verbatim>\<open>save_json_file\<close>).

  Conventions of the embedding:
  \<^item> Python floats are read as real numbers, Python ints as \<open>int\<close>.
  \<^item> A \<^verbatim>\<open>datetime\<close> is the record of its seven fields, as the Python class stores it;
    \<^verbatim>\<open>isoformat()\<close> is the string the class prints. A review dict holds ISO strings and
    every read goes through \<^verbatim>\<open>fromisoformat\<close>, which inverts \<^verbatim>\<open>isoformat\<close>; the
    records below hold the datetime itself and apply \<open>isoformat\<close> wherever the code
    uses the string as such (the sort key of \<^verbatim>\<open>get_due_reviews\<close>).
  \<^item> \<^verbatim>\<open>datetime + timedelta(days=x)\<close> is library arithmetic: it is the parameter
    \<open>plus_days\<close> of the operations, \<open>None\<close> where the library raises OverflowError.
  \<^item> The clock and the uuid generator are inputs of each call. The code reads the clock
    up to three times in one call, microseconds apart; the embedding takes one reading
    \<open>now\<close> per call.
  \<^item> The store file is absent, holds text that \<^verbatim>\<open>json.loads\<close> rejects, or holds a JSON
    value; \<^verbatim>\<open>save_json_file\<close> replaces it by the value written.
  \<^item> A parameter whose name is also a key of a dict carries a prime (\<open>topic'\<close>).
  \<^item> An exception raised by a tool (the dispatcher turns it into an \<^verbatim>\<open>Error: ...\<close> text)
    is \<open>Inl\<close>; a returned text is \<open>Inr\<close> of the data the text is rendered from.
\<close>

subsection \<open>Datetimes and their ISO strings\<close>

record datetime =
  year :: nat
  month :: nat
  day :: nat
  hour :: nat
  minute :: nat
  second :: nat
  microsecond :: nat

text \<open>The ranges every Python datetime keeps (the day is also bounded by its month).\<close>

definition valid_datetime :: "datetime \<Rightarrow> bool" where
  "valid_datetime d \<longleftrightarrow>
     1 \<le> year d \<and> year d \<le> 9999 \<and> 1 \<le> month d \<and> month d \<le> 12 \<and>
     1 \<le> day d \<and> day d \<le> 31 \<and> hour d < 24 \<and> minute d < 60 \<and> second d < 60 \<and>
     microsecond d < 1000000"

text \<open>Naive datetimes compare as the tuples of their fields, lexicographically.\<close>

definition datetime_key :: "datetime \<Rightarrow> nat list" where
  "datetime_key d = [year d, month d, day d, hour d, minute d, second d, microsecond d]"

definition datetime_le :: "datetime \<Rightarrow> datetime \<Rightarrow> bool" where
  "datetime_le a b \<longleftrightarrow> datetime_key a \<le> datetime_key b"

definition digit :: "nat \<Rightarrow> char" where
  "digit n = char_of (48 + n)"

text \<open>\<^verbatim>\<open>"%d" % n\<close>: the decimal digits of \<open>n\<close>.\<close>

fun dec :: "nat \<Rightarrow> string" where
  "dec n = (if n < 10 then [digit n] else dec (n div 10) @ [digit (n mod 10)])"

declare dec.simps [simp del]

text \<open>\<^verbatim>\<open>"%0wd" % n\<close>: the digits, padded with zeros on the left to width \<open>w\<close>.\<close>

definition zpad :: "nat \<Rightarrow> nat \<Rightarrow> string" where
  "zpad w n = replicate (w - length (dec n)) (CHR ''0'') @ dec n"

text \<open>The fraction of a printed time: \<^verbatim>\<open>".%06d"\<close> of the microseconds when they are not zero.\<close>

definition fraction :: "nat \<Rightarrow> string" where
  "fraction us = (if us = 0 then [] else ''.'' @ zpad 6 us)"

text \<open>
  \<^verbatim>\<open>datetime.isoformat()\<close>: \<^verbatim>\<open>"%04d-%02d-%02dT%02d:%02d:%02d"\<close>, followed by the
  fraction.
\<close>

definition isoformat :: "datetime \<Rightarrow> string" where
  "isoformat d =
     zpad 4 (year d) @ ''-'' @ zpad 2 (month d) @ ''-'' @ zpad 2 (day d) @ ''T'' @
     zpad 2 (hour d) @ '':'' @ zpad 2 (minute d) @ '':'' @ zpad 2 (second d) @
     fraction (microsecond d)"

subsection \<open>Reviews, JSON values and the store file\<close>

text \<open>An entry of \<^verbatim>\<open>review["review_notes"]\<close>; its key \<^verbatim>\<open>notes\<close> is the field \<open>notes_text\<close>.\<close>

record review_note =
  timestamp :: datetime
  performance :: string
  notes_text :: string

text \<open>
  A review dict. The keys \<^verbatim>\<open>last_performance\<close> and \<^verbatim>\<open>review_notes\<close> are absent
  (\<open>None\<close>) until a completion sets them. The key \<^verbatim>\<open>id\<close> is the field \<open>id_key\<close>.
\<close>

record review =
  id_key :: string
  topic :: string
  note_path :: string
  created_at :: datetime
  next_review :: datetime
  interval_days :: real
  repetitions :: int
  ease_factor :: real
  last_performance :: "string option"
  review_notes :: "review_note list option"

text \<open>
  The values \<^verbatim>\<open>load_json_file\<close> handles: \<open>JNull\<close> is \<^verbatim>\<open>None\<close>, \<open>JObject\<close> a dict in
  insertion order, and \<open>JReviews rs\<close> the array whose elements are the review dicts
  \<open>rs\<close> (\<open>JReviews []\<close> is the empty array \<^verbatim>\<open>[]\<close>).
\<close>

datatype json =
    JNull
  | JBool bool
  | JNumber real
  | JString string
  | JReviews "review list"
  | JObject "(string \<times> json) list"

datatype store_file = Absent | Unparseable string | Parsed json

datatype error = KeyError string | TypeError | OverflowError

text \<open>The data each returned text is rendered from.\<close>

datatype reply =
    ReviewScheduled string datetime
  | NoReviewsDue
  | ReviewsDue "review list"
  | ReviewNotFound string
  | ReviewCompleted datetime real

text \<open>Python truthiness, as \<^verbatim>\<open>default or {}\<close> tests it.\<close>

fun truthy :: "json \<Rightarrow> bool" where
  "truthy JNull = False"
| "truthy (JBool b) = b"
| "truthy (JNumber x) = (x \<noteq> 0)"
| "truthy (JString s) = (s \<noteq> [])"
| "truthy (JReviews rs) = (rs \<noteq> [])"
| "truthy (JObject kvs) = (kvs \<noteq> [])"

text \<open>
  \<^verbatim>\<open>load_json_file(filepath, default)\<close> (lines 31 to 38): the parsed content when the
  file exists and parses; \<^verbatim>\<open>default or {}\<close> when parsing raises, and when the file does
  not exist.
\<close>

fun load_json_file :: "store_file \<Rightarrow> json \<Rightarrow> json" where
  "load_json_file (Parsed v) dflt = v"
| "load_json_file (Unparseable s) dflt = (if truthy dflt then dflt else JObject [])"
| "load_json_file Absent dflt = (if truthy dflt then dflt else JObject [])"

text \<open>\<^verbatim>\<open>save_json_file(filepath, data)\<close> (lines 40 to 42) replaces the whole file.\<close>

definition save_json_file :: "store_file \<Rightarrow> json \<Rightarrow> store_file" where
  "save_json_file f data = Parsed data"

text \<open>The default every review tool passes: \<^verbatim>\<open>{"reviews": []}\<close>.\<close>

definition reviews_default :: json where
  "reviews_default = JObject [(''reviews'', JReviews [])]"

text \<open>\<^verbatim>\<open>reviews["reviews"]\<close>, for iteration and for \<^verbatim>\<open>append\<close>.\<close>

fun get_reviews :: "json \<Rightarrow> error + review list" where
  "get_reviews (JObject kvs) =
     (case map_of kvs ''reviews'' of
        None \<Rightarrow> Inl (KeyError ''reviews'')
      | Some (JReviews rs) \<Rightarrow> Inr rs
      | Some _ \<Rightarrow> Inl TypeError)"
| "get_reviews _ = Inl TypeError"

text \<open>
  The list \<^verbatim>\<open>reviews["reviews"]\<close> is mutated in place inside the loaded dict; the dict
  keeps its other keys and their order.
\<close>

fun set_reviews :: "json \<Rightarrow> review list \<Rightarrow> json" where
  "set_reviews (JObject kvs) rs =
     JObject (map (\<lambda>(k, v). if k = ''reviews'' then (k, JReviews rs) else (k, v)) kvs)"
| "set_reviews v rs = v"

subsection \<open>schedule_review\<close>

text \<open>
  \<^verbatim>\<open>schedule_review\<close> (lines 605 to 630). The dict it builds (lines 616 to 625) is
  \<open>new_review\<close>; the code checks none of its arguments.
\<close>

definition new_review :: "string \<Rightarrow> string \<Rightarrow> string \<Rightarrow> datetime \<Rightarrow> datetime \<Rightarrow> real \<Rightarrow> review" where
  "new_review review_id topic' note_path' now next_review' initial_interval_days =
     \<lparr>id_key = review_id, topic = topic', note_path = note_path',
      created_at = now, next_review = next_review',
      interval_days = initial_interval_days, repetitions = 0,
      ease_factor = 2.5, last_performance = None, review_notes = None\<rparr>"

definition schedule_review ::
  "(datetime \<Rightarrow> real \<Rightarrow> datetime option) \<Rightarrow> store_file \<Rightarrow> string \<Rightarrow> string \<Rightarrow> real \<Rightarrow> string \<Rightarrow> datetime
     \<Rightarrow> (error + reply) \<times> store_file" where
  "schedule_review plus_days f topic' note_path' initial_interval_days uuid_hex now =
     (let reviews = load_json_file f reviews_default;
          review_id = ''rv_'' @ take 8 uuid_hex
      in case plus_days now initial_interval_days of
           None \<Rightarrow> (Inl OverflowError, f)
         | Some next_review' \<Rightarrow>
            (let review = new_review review_id topic' note_path' now next_review' initial_interval_days
             in case get_reviews reviews of
                  Inl e \<Rightarrow> (Inl e, f)
                | Inr rs \<Rightarrow>
                    (Inr (ReviewScheduled topic' next_review'),
                     save_json_file f (set_reviews reviews (rs @ [review])))))"

subsection \<open>get_due_reviews\<close>

text \<open>
  \<^verbatim>\<open>get_due_reviews\<close> (lines 633 to 652). The due reviews are filtered by the parsed
  datetime and rendered in the order of \<^verbatim>\<open>sorted(due, key=lambda x: x["next_review"])\<close>,
  a stable sort on the ISO string. The reply holds the reviews in the order rendered.
\<close>

definition get_due_reviews :: "store_file \<Rightarrow> datetime \<Rightarrow> (error + reply) \<times> store_file" where
  "get_due_reviews f now =
     (let reviews = load_json_file f reviews_default
      in case get_reviews reviews of
           Inl e \<Rightarrow> (Inl e, f)
         | Inr rs \<Rightarrow>
            (let due = filter (\<lambda>r. datetime_le (next_review r) now) rs
             in if due = [] then (Inr NoReviewsDue, f)
                else (Inr (ReviewsDue (sort_key (\<lambda>x. isoformat (next_review x)) due)), f)))"

subsection \<open>complete_review\<close>

definition performance_map :: "string \<Rightarrow> int option" where
  "performance_map = map_of [(''weak'', 0), (''moderate'', 3), (''strong'', 4), (''perfect'', 5)]"

text \<open>
  The simplified SM-2 step (lines 676 to 688): from the review found and the quality, the
  new interval and the review with \<^verbatim>\<open>repetitions\<close> and \<^verbatim>\<open>ease_factor\<close> updated.
\<close>

definition sm2 :: "review \<Rightarrow> int \<Rightarrow> real \<times> review" where
  "sm2 review quality =
     (if quality \<ge> 3 then
        (let interval = (if repetitions review = 0 then 1
                         else if repetitions review = 1 then 6
                         else interval_days review * ease_factor review)
         in (interval,
             review\<lparr>repetitions := repetitions review + 1,
                    ease_factor := max 1.3 (ease_factor review +
                       (0.1 - (5 - of_int quality) * (0.08 + (5 - of_int quality) * 0.02)))\<rparr>))
      else (1, review\<lparr>repetitions := 0\<rparr>))"

text \<open>
  The log of a review: the list under \<^verbatim>\<open>review_notes\<close>, which the code creates empty
  when the key is not in the dict.
\<close>

definition review_log :: "review \<Rightarrow> review_note list" where
  "review_log r = (case review_notes r of None \<Rightarrow> [] | Some ns \<Rightarrow> ns)"

text \<open>
  What \<^verbatim>\<open>complete_review\<close> does to the dict it found (lines 673 to 701), from the
  lookup of the performance to the append of the note. \<^verbatim>\<open>if notes:\<close> holds for a
  non-empty string.
\<close>

definition complete ::
  "(datetime \<Rightarrow> real \<Rightarrow> datetime option) \<Rightarrow> review \<Rightarrow> string \<Rightarrow> string option \<Rightarrow> datetime
     \<Rightarrow> error + review" where
  "complete plus_days review performance' notes now =
     (case performance_map performance' of
        None \<Rightarrow> Inl (KeyError performance')
      | Some quality \<Rightarrow>
         (let (interval, review1) = sm2 review quality
          in case plus_days now interval of
               None \<Rightarrow> Inl OverflowError
             | Some t \<Rightarrow>
                (let review2 = review1\<lparr>interval_days := interval, next_review := t,
                                      last_performance := Some performance'\<rparr>
                 in case notes of
                      None \<Rightarrow> Inr review2
                    | Some s \<Rightarrow>
                       if s = [] then Inr review2
                       else Inr (review2\<lparr>review_notes :=
                              Some (review_log review2
                                    @ [\<lparr>timestamp = now, performance = performance', notes_text = s\<rparr>])\<rparr>))))"

text \<open>
  \<^verbatim>\<open>complete_review\<close> (lines 655 to 706). The loop stops at the first dict whose id
  matches and the code mutates that dict, so the saved list holds the updated dict at the
  place of the first match. The text returned after the save prints the date and the
  interval that were stored.
\<close>

fun replace_first :: "review list \<Rightarrow> string \<Rightarrow> review \<Rightarrow> review list" where
  "replace_first [] review_id new = []"
| "replace_first (r # rs) review_id new =
     (if id_key r = review_id then new # rs else r # replace_first rs review_id new)"

definition complete_review ::
  "(datetime \<Rightarrow> real \<Rightarrow> datetime option) \<Rightarrow> store_file \<Rightarrow> string \<Rightarrow> string \<Rightarrow> string option \<Rightarrow> datetime
     \<Rightarrow> (error + reply) \<times> store_file" where
  "complete_review plus_days f review_id performance' notes now =
     (let reviews = load_json_file f reviews_default
      in case get_reviews reviews of
           Inl e \<Rightarrow> (Inl e, f)
         | Inr rs \<Rightarrow>
            (case find (\<lambda>r. id_key r = review_id) rs of
               None \<Rightarrow> (Inr (ReviewNotFound review_id), f)
             | Some review \<Rightarrow>
                (case complete plus_days review performance' notes now of
                   Inl e \<Rightarrow> (Inl e, f)
                 | Inr review' \<Rightarrow>
                    (Inr (ReviewCompleted (next_review review') (interval_days review')),
                     save_json_file f (set_reviews reviews (replace_first rs review_id review'))))))"

subsection \<open>What a tool finds in the store\<close>

definition stored_reviews :: "store_file \<Rightarrow> error + review list" where
  "stored_reviews f = get_reviews (load_json_file f reviews_default)"

definition lookup_review :: "store_file \<Rightarrow> string \<Rightarrow> review option" where
  "lookup_review f review_id =
     (case stored_reviews f of
        Inl e \<Rightarrow> None
      | Inr rs \<Rightarrow> find (\<lambda>r. id_key r = review_id) rs)"

text \<open>
  The store under a sequence of tool calls, each with its arguments, its uuid where it
  draws one, and its clock reading: every call leaves the store file it returns.
\<close>

datatype call =
    Schedule string string real string datetime
  | GetDue datetime
  | Complete string string "string option" datetime

fun step :: "(datetime \<Rightarrow> real \<Rightarrow> datetime option) \<Rightarrow> store_file \<Rightarrow> call \<Rightarrow> store_file" where
  "step plus_days f (Schedule topic' note_path' initial_interval_days uuid_hex now) =
     snd (schedule_review plus_days f topic' note_path' initial_interval_days uuid_hex now)"
| "step plus_days f (GetDue now) = snd (get_due_reviews f now)"
| "step plus_days f (Complete review_id performance' notes now) =
     snd (complete_review plus_days f review_id performance' notes now)"

definition run :: "(datetime \<Rightarrow> real \<Rightarrow> datetime option) \<Rightarrow> store_file \<Rightarrow> call list \<Rightarrow> store_file" where
  "run plus_days f calls = foldl (step plus_days) f calls"

subsection \<open>Data of the examples\<close>

definition example_now :: datetime where
  "example_now = \<lparr>year = 2025, month = 3, day = 10, hour = 9, minute = 30, second = 0,
                   microsecond = 0\<rparr>"

text \<open>
  An instance of \<open>plus_days\<close> for the examples. It adds a whole number of days that
  stays inside the month, as the library does, and is \<open>None\<close> everywhere else; among
  these is every offset beyond the 999999999 days a \<^verbatim>\<open>timedelta\<close> can hold, where the
  library raises OverflowError.
\<close>

definition whole_days :: "datetime \<Rightarrow> real \<Rightarrow> datetime option" where
  "whole_days d x =
     (if x = of_int \<lfloor>x\<rfloor> \<and> 0 \<le> x \<and> day d + nat \<lfloor>x\<rfloor> \<le> 28
      then Some (d\<lparr>day := day d + nat \<lfloor>x\<rfloor>\<rparr>) else None)"

definition example_review :: review where
  "example_review = new_review ''rv_0a1b2c3d'' ''Docker Basics'' ''notes/docker.md''
     example_now (example_now\<lparr>day := 11\<rparr>) 1"

definition example_store :: store_file where
  "example_store = Parsed (JObject [(''reviews'', JReviews [example_review])])"

text \<open>A store of three reviews, two of them due at \<open>example_now\<close>.\<close>

definition example_due :: "review list" where
  "example_due =
     [example_review\<lparr>id_key := ''rv_00000002'', next_review := example_now\<lparr>day := 9\<rparr>\<rparr>,
      example_review,
      example_review\<lparr>id_key := ''rv_00000003'', next_review := example_now\<lparr>day := 8, microsecond := 250\<rparr>\<rparr>]"

section \<open>Properties\<close>

subsection \<open>ISO strings order as datetimes do\<close>

lemma app_less:
  fixes x y :: "'a::linorder list"
  assumes "length x = length y"
  shows "x @ u < y @ v \<longleftrightarrow> x < y \<or> (x = y \<and> u < v)"
  using assms by (induction x y rule: list_induct2) auto

lemma digit_less: "n < 10 \<Longrightarrow> m < 10 \<Longrightarrow> digit n < digit m \<longleftrightarrow> n < m"
  by (simp add: digit_def less_char_def)

lemma digit_eq: "n < 10 \<Longrightarrow> m < 10 \<Longrightarrow> digit n = digit m \<longleftrightarrow> n = m"
  using digit_less[of n m] digit_less[of m n] by (metis less_irrefl linorder_neqE_nat)

lemma length_dec: "1 \<le> w \<Longrightarrow> n < 10 ^ w \<Longrightarrow> length (dec n) \<le> w"
proof (induction w arbitrary: n)
  case 0 then show ?case by simp
next
  case (Suc w)
  show ?case
  proof (cases "n < 10")
    case True then show ?thesis by (simp add: dec.simps[of n])
  next
    case False
    then have w: "1 \<le> w" using Suc.prems by (cases w) auto
    have "n div 10 < 10 ^ w" using Suc.prems by (simp add: less_mult_imp_div_less mult.commute)
    from Suc.IH[OF w this] False show ?thesis by (simp add: dec.simps[of n])
  qed
qed

lemma dec_0: "dec 0 = [digit 0]" by (simp add: dec.simps[of 0])

lemma zpad_Suc:
  assumes "1 \<le> w" "n < 10 ^ Suc w"
  shows "zpad (Suc w) n = zpad w (n div 10) @ [digit (n mod 10)]"
proof (cases "n < 10")
  case True
  have "replicate w (CHR ''0'') = replicate (w - 1) (CHR ''0'') @ [CHR ''0'']"
    using assms(1) by (cases w) (simp_all add: replicate_append_same)
  moreover have "digit 0 = CHR ''0''"
  proof -
    have "of_char (digit 0) = (of_char (CHR ''0'') :: nat)" by (simp add: digit_def)
    then show ?thesis by (simp only: of_char_eq_iff)
  qed
  ultimately show ?thesis using True by (simp add: zpad_def dec.simps[of n] dec_0)
next
  case False
  have "n div 10 < 10 ^ w" using assms by (simp add: less_mult_imp_div_less mult.commute)
  from length_dec[OF assms(1) this] False show ?thesis
    by (simp add: zpad_def dec.simps[of n] Suc_diff_le)
qed

lemma zpad_1: "n < 10 \<Longrightarrow> zpad (Suc 0) n = [digit n]"
  by (simp add: zpad_def dec.simps[of n])

lemma zpad_base:
  assumes "n < 10" "m < 10"
  shows "length (zpad (Suc 0) n) = Suc 0 \<and> (zpad (Suc 0) n < zpad (Suc 0) m \<longleftrightarrow> n < m) \<and>
         (zpad (Suc 0) n = zpad (Suc 0) m \<longleftrightarrow> n = m)"
  using digit_less[OF assms] digit_eq[OF assms] by (simp add: zpad_1[OF assms(1)] zpad_1[OF assms(2)])

lemma divmod_less: "(n::nat) < m \<longleftrightarrow> n div 10 < m div 10 \<or> (n div 10 = m div 10 \<and> n mod 10 < m mod 10)"
proof -
  have n: "n = 10 * (n div 10) + n mod 10" and m: "m = 10 * (m div 10) + m mod 10" by simp_all
  have "n mod 10 < 10" "m mod 10 < 10" by simp_all
  then show ?thesis using n m by linarith
qed

lemma divmod_eq: "(n::nat) = m \<longleftrightarrow> n div 10 = m div 10 \<and> n mod 10 = m mod 10"
  by (metis div_mult_mod_eq)

lemma zpad_step:
  assumes w: "1 \<le> w" and n: "n < 10 ^ Suc w" and m: "m < 10 ^ Suc w"
    and IH: "length (zpad w (n div 10)) = w" "length (zpad w (m div 10)) = w"
       "zpad w (n div 10) < zpad w (m div 10) \<longleftrightarrow> n div 10 < m div 10"
       "zpad w (n div 10) = zpad w (m div 10) \<longleftrightarrow> n div 10 = m div 10"
  shows "length (zpad (Suc w) n) = Suc w \<and> (zpad (Suc w) n < zpad (Suc w) m \<longleftrightarrow> n < m) \<and>
         (zpad (Suc w) n = zpad (Suc w) m \<longleftrightarrow> n = m)"
proof -
  have len: "length (zpad w (n div 10)) = length (zpad w (m div 10))" using IH by simp
  have dn: "n mod 10 < 10" "m mod 10 < 10" by simp_all
  have a: "length (zpad (Suc w) n) = Suc w" by (simp add: zpad_Suc[OF w n] IH(1))
  have b: "zpad (Suc w) n < zpad (Suc w) m \<longleftrightarrow> n < m"
    unfolding zpad_Suc[OF w n] zpad_Suc[OF w m] app_less[OF len] IH(3) IH(4) divmod_less[of n m]
    using digit_less[OF dn] by simp
  have c: "zpad (Suc w) n = zpad (Suc w) m \<longleftrightarrow> n = m"
    unfolding zpad_Suc[OF w n] zpad_Suc[OF w m] divmod_eq[of n m]
    using digit_eq[OF dn] IH(4) len by simp
  show ?thesis using a b c by blast
qed

lemma zpad_props:
  "1 \<le> w \<Longrightarrow> n < 10 ^ w \<Longrightarrow> m < 10 ^ w \<Longrightarrow>
     length (zpad w n) = w \<and> (zpad w n < zpad w m \<longleftrightarrow> n < m) \<and> (zpad w n = zpad w m \<longleftrightarrow> n = m)"
proof (induction w arbitrary: n m)
  case 0 then show ?case by simp
next
  case (Suc w)
  show ?case
  proof (cases "w = 0")
    case True
    with Suc.prems zpad_base[of n m] show ?thesis by simp
  next
    case False
    then have w: "1 \<le> w" by simp
    have n: "n div 10 < 10 ^ w" and m: "m div 10 < 10 ^ w"
      using Suc.prems by (simp_all add: less_mult_imp_div_less mult.commute)
    from Suc.IH[OF w n m] Suc.IH[OF w m n] zpad_step[OF w Suc.prems(2) Suc.prems(3)]
    show ?thesis by blast
  qed
qed

lemma seg_order:
  fixes x y u v :: string and p q :: nat
  assumes "length x = length y \<and> (x < y \<longleftrightarrow> p < q) \<and> (x = y \<longleftrightarrow> p = q)"
    and "(u < v \<longleftrightarrow> ps < qs) \<and> (u = v \<longleftrightarrow> ps = qs)"
  shows "(x @ c # u < y @ c # v \<longleftrightarrow> p # ps < q # qs) \<and> (x @ c # u = y @ c # v \<longleftrightarrow> p # ps = q # qs)"
  using assms by (simp add: app_less)

lemma last_seg_order:
  fixes x y u v :: string and p q :: nat
  assumes "length x = length y \<and> (x < y \<longleftrightarrow> p < q) \<and> (x = y \<longleftrightarrow> p = q)"
    and "(u < v \<longleftrightarrow> ps < qs) \<and> (u = v \<longleftrightarrow> ps = qs)"
  shows "(x @ u < y @ v \<longleftrightarrow> p # ps < q # qs) \<and> (x @ u = y @ v \<longleftrightarrow> p # ps = q # qs)"
  using assms by (simp add: app_less)

lemma fraction_order:
  assumes "a < 1000000" "b < 1000000"
  shows "(fraction a < fraction b \<longleftrightarrow> [a] < [b]) \<and> (fraction a = fraction b \<longleftrightarrow> [a] = [b])"
  using zpad_props[of 6 a b] assms by (auto simp: fraction_def)

lemma field_order:
  assumes "1 \<le> w" "n < 10 ^ w" "m < 10 ^ w"
  shows "length (zpad w n) = length (zpad w m) \<and> (zpad w n < zpad w m \<longleftrightarrow> n < m) \<and>
         (zpad w n = zpad w m \<longleftrightarrow> n = m)"
  using zpad_props[OF assms] zpad_props[OF assms(1) assms(3) assms(2)] by simp

lemma isoformat_order:
  assumes "valid_datetime a" "valid_datetime b"
  shows "(isoformat a < isoformat b \<longleftrightarrow> datetime_key a < datetime_key b) \<and>
         (isoformat a = isoformat b \<longleftrightarrow> datetime_key a = datetime_key b)"
proof -
  have y: "year a < 10 ^ 4" "year b < 10 ^ 4" and mo: "month a < 10 ^ 2" "month b < 10 ^ 2"
    and d: "day a < 10 ^ 2" "day b < 10 ^ 2" and h: "hour a < 10 ^ 2" "hour b < 10 ^ 2"
    and mi: "minute a < 10 ^ 2" "minute b < 10 ^ 2" and s: "second a < 10 ^ 2" "second b < 10 ^ 2"
    and us: "microsecond a < 1000000" "microsecond b < 1000000"
    using assms by (simp_all add: valid_datetime_def)
  note f = fraction_order[OF us]
  note s1 = last_seg_order[OF field_order[OF _ s] f]
  note m1 = seg_order[OF field_order[OF _ mi] s1, of "CHR '':''"]
  note h1 = seg_order[OF field_order[OF _ h] m1, of "CHR '':''"]
  note d1 = seg_order[OF field_order[OF _ d] h1, of "CHR ''T''"]
  note mo1 = seg_order[OF field_order[OF _ mo] d1, of "CHR ''-''"]
  note y1 = seg_order[OF field_order[OF _ y] mo1, of "CHR ''-''"]
  have iso: "\<And>x. isoformat x = zpad 4 (year x) @ CHR ''-'' # zpad 2 (month x) @ CHR ''-'' # zpad 2 (day x) @
      CHR ''T'' # zpad 2 (hour x) @ CHR '':'' # zpad 2 (minute x) @ CHR '':'' # zpad 2 (second x) @
      fraction (microsecond x)"
    by (simp add: isoformat_def)
  show ?thesis unfolding iso datetime_key_def using y1 by simp
qed

lemma isoformat_le_iff:
  assumes "valid_datetime a" "valid_datetime b"
  shows "isoformat a \<le> isoformat b \<longleftrightarrow> datetime_le a b"
  using isoformat_order[OF assms] by (simp add: datetime_le_def le_less)

subsection \<open>The store after a save\<close>

lemma map_of_set_reviews:
  "map_of kvs ''reviews'' = Some (JReviews rs) \<Longrightarrow>
   map_of (map (\<lambda>(k, v). if k = ''reviews'' then (k, JReviews rs') else (k, v)) kvs) ''reviews''
     = Some (JReviews rs')"
  by (induction kvs) (auto split: if_splits)

lemma get_set_reviews: "get_reviews doc = Inr rs \<Longrightarrow> get_reviews (set_reviews doc rs') = Inr rs'"
  by (cases doc) (auto simp: map_of_set_reviews split: option.splits json.splits)

lemma stored_saved:
  "stored_reviews f = Inr rs \<Longrightarrow>
   stored_reviews (save_json_file f (set_reviews (load_json_file f reviews_default) rs')) = Inr rs'"
  by (simp add: stored_reviews_def save_json_file_def get_set_reviews)

lemma find_replace_first:
  "find (\<lambda>r. id_key r = i) rs = Some r \<Longrightarrow> id_key new = i \<Longrightarrow>
   find (\<lambda>r. id_key r = i) (replace_first rs i new) = Some new"
  by (induction rs) (auto split: if_splits)

lemma find_id_key: "find (\<lambda>r. id_key r = i) rs = Some r \<Longrightarrow> id_key r = i"
  by (induction rs) (auto split: if_splits)

subsection \<open>One completion\<close>

lemma complete_id_key: "complete plus_days r p n now = Inr r' \<Longrightarrow> id_key r' = id_key r"
  by (auto simp: complete_def sm2_def Let_def split: option.splits if_splits prod.splits)

lemma complete_fields:
  assumes "complete plus_days r p n now = Inr r'" "performance_map p = Some q"
  shows "repetitions r' = repetitions (snd (sm2 r q))"
    "ease_factor r' = ease_factor (snd (sm2 r q))"
    "interval_days r' = fst (sm2 r q)"
    "plus_days now (fst (sm2 r q)) = Some (next_review r')"
    "last_performance r' = Some p"
  using assms by (auto simp: complete_def Let_def split: option.splits if_splits prod.splits)

lemma complete_succeeds:
  assumes "performance_map p = Some q" "plus_days now (fst (sm2 r q)) = Some t"
  shows "\<exists>r'. complete plus_days r p n now = Inr r'"
  using assms by (auto simp: complete_def Let_def split: option.splits if_splits prod.splits)

lemma complete_review_found:
  assumes "lookup_review f i = Some r" "complete plus_days r p n now = Inr r'"
  shows "\<exists>f'. complete_review plus_days f i p n now
            = (Inr (ReviewCompleted (next_review r') (interval_days r')), f')
      \<and> lookup_review f' i = Some r'"
proof -
  from assms(1) obtain rs where rs: "stored_reviews f = Inr rs"
      "find (\<lambda>r. id_key r = i) rs = Some r"
    by (auto simp: lookup_review_def split: sum.splits)
  have id: "id_key r' = i" using complete_id_key[OF assms(2)] find_id_key[OF rs(2)] by simp
  show ?thesis using rs assms(2) stored_saved[OF rs(1)] find_replace_first[OF rs(2) id]
    by (simp add: complete_review_def lookup_review_def Let_def stored_reviews_def)
qed

lemma performance_map_weak: "performance_map ''weak'' = Some 0"
  by (simp add: performance_map_def)

lemma performance_map_strong: "performance_map ''strong'' = Some 4"
  by (simp add: performance_map_def)

lemma example_lookup: "lookup_review example_store ''rv_0a1b2c3d'' = Some example_review"
  by (simp add: lookup_review_def stored_reviews_def example_store_def example_review_def
        new_review_def)

lemma whole_days_1: "whole_days example_now 1 = Some (example_now\<lparr>day := 11\<rparr>)"
  by (simp add: whole_days_def example_now_def)

subsection \<open>The SM-2 step and the states of a review\<close>

lemma sm2_success:
  assumes "3 \<le> q"
  shows "fst (sm2 r q) = (if repetitions r = 0 then 1 else if repetitions r = 1 then 6
                          else interval_days r * ease_factor r)"
    "repetitions (snd (sm2 r q)) = repetitions r + 1"
    "ease_factor (snd (sm2 r q)) = max 1.3 (ease_factor r +
        (0.1 - (5 - of_int q) * (0.08 + (5 - of_int q) * 0.02)))"
  using assms by (simp_all add: sm2_def Let_def)

lemma sm2_failure:
  assumes "\<not> 3 \<le> q"
  shows "fst (sm2 r q) = 1" "repetitions (snd (sm2 r q)) = 0"
    "ease_factor (snd (sm2 r q)) = ease_factor r"
  using assms by (simp_all add: sm2_def)

lemma complete_invariant:
  assumes "complete plus_days r p n now = Inr r'"
    and "1.3 \<le> ease_factor r \<and> 0 \<le> repetitions r \<and> (1 \<le> repetitions r \<longrightarrow> 0 < interval_days r)"
  shows "1.3 \<le> ease_factor r' \<and> 0 \<le> repetitions r' \<and> (1 \<le> repetitions r' \<longrightarrow> 0 < interval_days r')"
proof -
  from assms(1) obtain q where q: "performance_map p = Some q"
    by (auto simp: complete_def split: option.splits)
  note f = complete_fields[OF assms(1) q]
  show ?thesis
  proof (cases "3 \<le> q")
    case True
    have e: "0 < ease_factor r" using assms(2) by simp
    have "1 \<le> repetitions r \<Longrightarrow> 0 < interval_days r * ease_factor r"
      using assms(2) e by simp
    then show ?thesis using f(1,2,3) sm2_success[OF True, of r] assms(2) by auto
  next
    case False
    then show ?thesis using f(1,2,3) sm2_failure[OF False, of r] assms(2) by auto
  qed
qed

subsection \<open>Scheduling, listing and failing calls\<close>

lemma stored_absent: "stored_reviews Absent = Inr []"
  by (simp add: stored_reviews_def reviews_default_def)

lemma stored_unparseable: "stored_reviews (Unparseable s) = Inr []"
  by (simp add: stored_reviews_def reviews_default_def)

lemma schedule_review_result:
  assumes "stored_reviews f = Inr rs" "plus_days now d = Some t"
  shows "schedule_review plus_days f tp np d u now
     = (Inr (ReviewScheduled tp t),
        save_json_file f (set_reviews (load_json_file f reviews_default)
          (rs @ [new_review (''rv_'' @ take 8 u) tp np now t d])))"
  using assms by (simp add: schedule_review_def stored_reviews_def Let_def)

lemma schedule_review_overflow:
  assumes "plus_days now d = None"
  shows "schedule_review plus_days f tp np d u now = (Inl OverflowError, f)"
  using assms by (simp add: schedule_review_def Let_def)

lemma complete_review_not_found:
  assumes "stored_reviews f = Inr rs" "find (\<lambda>r. id_key r = i) rs = None"
  shows "complete_review plus_days f i p n now = (Inr (ReviewNotFound i), f)"
  using assms by (simp add: complete_review_def stored_reviews_def Let_def)

lemma complete_review_unchanged:
  assumes "\<forall>t x. fst (complete_review plus_days f i p n now) \<noteq> Inr (ReviewCompleted t x)"
  shows "snd (complete_review plus_days f i p n now) = f"
  using assms
  by (auto simp: complete_review_def Let_def split: sum.splits option.splits)

lemma complete_invalid_performance:
  "performance_map p = None \<Longrightarrow> complete plus_days r p n now = Inl (KeyError p)"
  by (simp add: complete_def)

lemma complete_review_invalid_performance:
  assumes "performance_map p = None"
  shows "snd (complete_review plus_days f i p n now) = f"
    "fst (complete_review plus_days f i p n now) \<noteq> Inr (ReviewCompleted t x)"
    "lookup_review f i = Some r \<Longrightarrow> fst (complete_review plus_days f i p n now) = Inl (KeyError p)"
  using complete_invalid_performance[OF assms]
  by (auto simp: complete_review_def lookup_review_def stored_reviews_def Let_def
      split: sum.splits option.splits)

lemma sort_by_isoformat:
  assumes "\<forall>r \<in> set xs. valid_datetime (next_review r)"
  shows "sorted_wrt (\<lambda>a b. datetime_le (next_review a) (next_review b))
           (sort_key (\<lambda>x. isoformat (next_review x)) xs)"
proof -
  let ?k = "\<lambda>x. isoformat (next_review x)"
  have "sorted (map ?k (sort_key ?k xs))" by (rule sorted_sort_key)
  then have s: "sorted_wrt (\<lambda>a b. ?k a \<le> ?k b) (sort_key ?k xs)" by (simp add: sorted_map)
  show ?thesis
  proof (rule sorted_wrt_mono_rel[OF _ s])
    fix a b
    assume "a \<in> set (sort_key ?k xs)" "b \<in> set (sort_key ?k xs)" "?k a \<le> ?k b"
    then show "datetime_le (next_review a) (next_review b)"
      using assms isoformat_le_iff[of "next_review a" "next_review b"] by simp
  qed
qed

lemma get_due_reviews_result:
  assumes "stored_reviews f = Inr rs"
  shows "get_due_reviews f now =
     (if filter (\<lambda>r. datetime_le (next_review r) now) rs = [] then (Inr NoReviewsDue, f)
      else (Inr (ReviewsDue (sort_key (\<lambda>x. isoformat (next_review x))
                   (filter (\<lambda>r. datetime_le (next_review r) now) rs))), f))"
  using assms by (simp add: get_due_reviews_def stored_reviews_def Let_def)

subsection \<open>The stored review under tool calls\<close>

lemma find_append_found: "find P xs = Some x \<Longrightarrow> find P (xs @ ys) = Some x"
  by (induction xs) (auto split: if_splits)

lemma find_append_new: "find P xs = None \<Longrightarrow> P y \<Longrightarrow> find P (xs @ [y]) = Some y"
  by (induction xs) (auto split: if_splits)

lemma find_replace_other:
  "id_key new = j \<Longrightarrow> j \<noteq> i \<Longrightarrow>
   find (\<lambda>r. id_key r = i) (replace_first rs j new) = find (\<lambda>r. id_key r = i) rs"
  by (induction rs) auto

lemma complete_review_cases:
  assumes "stored_reviews f = Inr rs"
  shows "complete_review plus_days f j p n now =
     (case find (\<lambda>r. id_key r = j) rs of
        None \<Rightarrow> (Inr (ReviewNotFound j), f)
      | Some rj \<Rightarrow>
         (case complete plus_days rj p n now of
            Inl e \<Rightarrow> (Inl e, f)
          | Inr r' \<Rightarrow>
             (Inr (ReviewCompleted (next_review r') (interval_days r')),
              save_json_file f (set_reviews (load_json_file f reviews_default)
                 (replace_first rs j r')))))"
  using assms by (simp add: complete_review_def stored_reviews_def Let_def)

lemma get_due_reviews_no_write: "snd (get_due_reviews f now) = f"
  by (simp add: get_due_reviews_def Let_def split: sum.splits)

lemma schedule_review_keeps:
  assumes "lookup_review f i = Some r"
  shows "lookup_review (snd (schedule_review plus_days f tp np d u now)) i = Some r"
proof -
  from assms obtain rs where rs: "stored_reviews f = Inr rs"
      "find (\<lambda>r. id_key r = i) rs = Some r"
    by (auto simp: lookup_review_def split: sum.splits)
  show ?thesis
  proof (cases "plus_days now d")
    case None
    then show ?thesis using assms by (simp add: schedule_review_overflow)
  next
    case (Some t)
    have "schedule_review plus_days f tp np d u now
      = (Inr (ReviewScheduled tp t),
         save_json_file f (set_reviews (load_json_file f reviews_default)
           (rs @ [new_review (''rv_'' @ take 8 u) tp np now t d])))"
      using schedule_review_result[where plus_days = plus_days and now = now and d = d
          and tp = tp and np = np and u = u, OF rs(1) Some] .
    then show ?thesis
      using stored_saved[OF rs(1)] find_append_found[OF rs(2)] by (simp add: lookup_review_def)
  qed
qed

lemma complete_review_keeps:
  assumes "lookup_review f i = Some r"
    and "1.3 \<le> ease_factor r \<and> 0 \<le> repetitions r \<and> (1 \<le> repetitions r \<longrightarrow> 0 < interval_days r)"
  shows "\<exists>r'. lookup_review (snd (complete_review plus_days f j p n now)) i = Some r'
     \<and> 1.3 \<le> ease_factor r' \<and> 0 \<le> repetitions r'
     \<and> (1 \<le> repetitions r' \<longrightarrow> 0 < interval_days r')"
proof -
  from assms(1) obtain rs where rs: "stored_reviews f = Inr rs"
      "find (\<lambda>r. id_key r = i) rs = Some r"
    by (auto simp: lookup_review_def split: sum.splits)
  note cc = complete_review_cases[OF rs(1), of plus_days j p n now]
  show ?thesis
  proof (cases "find (\<lambda>r. id_key r = j) rs")
    case None
    then show ?thesis using cc assms by simp
  next
    case (Some rj)
    show ?thesis
    proof (cases "complete plus_days rj p n now")
      case (Inl e)
      then show ?thesis using cc Some assms by simp
    next
      case (Inr rj')
      have st: "stored_reviews (snd (complete_review plus_days f j p n now))
                  = Inr (replace_first rs j rj')"
        using cc Some Inr stored_saved[OF rs(1)] by simp
      have idj: "id_key rj' = j" using complete_id_key[OF Inr] find_id_key[OF Some] by simp
      show ?thesis
      proof (cases "j = i")
        case True
        then have "rj = r" using Some rs(2) by simp
        then have "complete plus_days r p n now = Inr rj'" using Inr by simp
        from complete_invariant[OF this assms(2)]
        show ?thesis using st True idj find_replace_first[OF rs(2), of rj']
          by (simp add: lookup_review_def)
      next
        case False
        then show ?thesis using st find_replace_other[OF idj False, of rs] rs(2) assms(2)
          by (simp add: lookup_review_def)
      qed
    qed
  qed
qed

lemma step_keeps:
  assumes "lookup_review f i = Some r"
    and "1.3 \<le> ease_factor r \<and> 0 \<le> repetitions r \<and> (1 \<le> repetitions r \<longrightarrow> 0 < interval_days r)"
  shows "\<exists>r'. lookup_review (step plus_days f c) i = Some r'
     \<and> 1.3 \<le> ease_factor r' \<and> 0 \<le> repetitions r'
     \<and> (1 \<le> repetitions r' \<longrightarrow> 0 < interval_days r')"
proof (cases c)
  case (Schedule tp np d u now)
  then show ?thesis using schedule_review_keeps[OF assms(1)] assms(2) by simp
next
  case (GetDue now)
  then show ?thesis using assms by (simp add: get_due_reviews_no_write)
next
  case (Complete j p n now)
  then show ?thesis using complete_review_keeps[OF assms] by simp
qed

lemma run_keeps:
  assumes "lookup_review f i = Some r"
    and "1.3 \<le> ease_factor r \<and> 0 \<le> repetitions r \<and> (1 \<le> repetitions r \<longrightarrow> 0 < interval_days r)"
  shows "\<exists>r'. lookup_review (run plus_days f calls) i = Some r'
     \<and> 1.3 \<le> ease_factor r' \<and> 0 \<le> repetitions r'
     \<and> (1 \<le> repetitions r' \<longrightarrow> 0 < interval_days r')"
  using assms
proof (induction calls arbitrary: f r)
  case Nil
  then show ?case by (simp add: run_def)
next
  case (Cons c calls)
  from step_keeps[OF Cons.prems, of plus_days c] obtain r1 where
    r1: "lookup_review (step plus_days f c) i = Some r1"
      "1.3 \<le> ease_factor r1 \<and> 0 \<le> repetitions r1 \<and> (1 \<le> repetitions r1 \<longrightarrow> 0 < interval_days r1)"
    by blast
  from Cons.IH[OF r1] show ?case by (simp add: run_def)
qed

lemma scheduled_lookup:
  assumes "stored_reviews f0 = Inr rs" "find (\<lambda>r. id_key r = ''rv_'' @ take 8 u) rs = None"
    and "plus_days now0 d = Some t0"
  shows "lookup_review (snd (schedule_review plus_days f0 tp np d u now0)) (''rv_'' @ take 8 u)
     = Some (new_review (''rv_'' @ take 8 u) tp np now0 t0 d)"
proof -
  have "id_key (new_review (''rv_'' @ take 8 u) tp np now0 t0 d) = ''rv_'' @ take 8 u"
    by (simp add: new_review_def)
  from find_append_new[OF assms(2), of "new_review (''rv_'' @ take 8 u) tp np now0 t0 d", OF this]
  show ?thesis
    using schedule_review_result[where plus_days = plus_days and now = now0 and d = d
        and tp = tp and np = np and u = u, OF assms(1) assms(3)] stored_saved[OF assms(1)]
    by (simp add: lookup_review_def)
qed

lemma scheduled_run:
  assumes "stored_reviews f0 = Inr rs" "find (\<lambda>r. id_key r = ''rv_'' @ take 8 u) rs = None"
    and "plus_days now0 d = Some t0"
  shows "\<exists>r. lookup_review (run plus_days (snd (schedule_review plus_days f0 tp np d u now0)) calls)
             (''rv_'' @ take 8 u) = Some r
     \<and> 1.3 \<le> ease_factor r \<and> 0 \<le> repetitions r \<and> (1 \<le> repetitions r \<longrightarrow> 0 < interval_days r)"
  by (rule run_keeps[OF scheduled_lookup[where plus_days = plus_days and ?now0.0 = now0
          and d = d, OF assms]]) (simp add: new_review_def)

lemma complete_review_stores:
  assumes "lookup_review f i = Some r" "performance_map p = Some q"
    and "plus_days now (fst (sm2 r q)) = Some t"
  shows "\<exists>r' f'. complete_review plus_days f i p n now
               = (Inr (ReviewCompleted t (interval_days r')), f')
      \<and> lookup_review f' i = Some r' \<and> complete plus_days r p n now = Inr r'"
proof -
  obtain r' where c: "complete plus_days r p n now = Inr r'"
    using complete_succeeds[OF assms(2), of plus_days now r t n] assms(3) by auto
  from complete_fields(4)[OF c assms(2)] assms(3) have "next_review r' = t" by simp
  with complete_review_found[OF assms(1) c] c show ?thesis by auto
qed

lemma sm2_interval:
  "fst (sm2 r q) = (if 3 \<le> q then (if repetitions r = 0 then 1 else if repetitions r = 1 then 6
                                     else interval_days r * ease_factor r) else 1)"
  by (simp add: sm2_def Let_def)

lemma sm2_ease:
  "ease_factor (snd (sm2 r q)) =
     (if 3 \<le> q
      then max 1.3 (ease_factor r + (0.1 - (5 - of_int q) * (0.08 + (5 - of_int q) * 0.02)))
      else ease_factor r)"
  by (simp add: sm2_def Let_def)

subsection \<open>The examples, evaluated\<close>

lemma example_stored: "stored_reviews example_store = Inr [example_review]"
  by (simp add: stored_reviews_def example_store_def)

lemma example_find_none: "find (\<lambda>r. id_key r = ''rv_invalid'') [example_review] = None"
  by (simp add: example_review_def new_review_def)

lemma performance_map_excellent: "performance_map ''excellent'' = None"
  by (simp add: performance_map_def)

lemma example_due_stored:
  "stored_reviews (Parsed (JObject [(''reviews'', JReviews example_due)])) = Inr example_due"
  by (simp add: stored_reviews_def)

lemma example_due_valid: "\<forall>r \<in> set example_due. valid_datetime (next_review r)"
  by (simp add: example_due_def example_review_def new_review_def valid_datetime_def example_now_def)

lemma example_due_filter:
  "filter (\<lambda>r. datetime_le (next_review r) example_now) example_due =
     [example_review\<lparr>id_key := ''rv_00000002'', next_review := example_now\<lparr>day := 9\<rparr>\<rparr>,
      example_review\<lparr>id_key := ''rv_00000003'', next_review := example_now\<lparr>day := 8, microsecond := 250\<rparr>\<rparr>]"
  by (simp add: example_due_def example_review_def new_review_def datetime_le_def datetime_key_def
        example_now_def)

lemma isoformat_example: "isoformat example_now = ''2025-03-10T09:30:00''"
  by code_simp

lemma isoformat_example_us:
  "isoformat (example_now\<lparr>day := 8, microsecond := 250\<rparr>) = ''2025-03-08T09:30:00.000250''"
  by code_simp

lemma isoformat_example_9:
  "isoformat (example_now\<lparr>day := 9\<rparr>) = ''2025-03-09T09:30:00''"
  by code_simp

lemma example_due_sorted:
  "sort_key (\<lambda>x. isoformat (next_review x))
     [example_review\<lparr>id_key := ''rv_00000002'', next_review := example_now\<lparr>day := 9\<rparr>\<rparr>,
      example_review\<lparr>id_key := ''rv_00000003'',
          next_review := example_now\<lparr>day := 8, microsecond := 250\<rparr>\<rparr>]
  = [example_review\<lparr>id_key := ''rv_00000003'',
          next_review := example_now\<lparr>day := 8, microsecond := 250\<rparr>\<rparr>,
     example_review\<lparr>id_key := ''rv_00000002'', next_review := example_now\<lparr>day := 9\<rparr>\<rparr>]"
  by (simp add: isoformat_example_us isoformat_example_9 less_eq_char_def less_char_def)

lemma whole_days_too_many: "whole_days example_now 1000000000 = None"
  by (simp add: whole_days_def example_now_def)

lemma performance_map_perfect: "performance_map ''perfect'' = Some 5"
  by (simp add: performance_map_def)

lemma whole_days_15: "whole_days example_now 15 = Some (example_now\<lparr>day := 25\<rparr>)"
  by (simp add: whole_days_def example_now_def)

lemma example_lookup_third:
  "lookup_review (Parsed (JObject [(''reviews'',
       JReviews [example_review\<lparr>repetitions := 2, interval_days := 6\<rparr>])])) ''rv_0a1b2c3d''
     = Some (example_review\<lparr>repetitions := 2, interval_days := 6\<rparr>)"
  by (simp add: lookup_review_def stored_reviews_def example_review_def new_review_def)

lemma example_scheduled:
  "schedule_review whole_days Absent ''Docker Basics'' ''notes/docker.md'' 1 ''0a1b2c3d4e5f''
     example_now = (Inr (ReviewScheduled ''Docker Basics'' (example_now\<lparr>day := 11\<rparr>)), example_store)"
  by (simp add: schedule_review_def whole_days_1 reviews_default_def save_json_file_def
        example_store_def example_review_def)

lemma example_complete_strong:
  "complete whole_days example_review ''strong'' None example_now
     = Inr (example_review\<lparr>repetitions := 1, interval_days := 1,
              last_performance := Some ''strong''\<rparr>)"
  by (simp add: complete_def performance_map_strong sm2_def whole_days_1 example_review_def
        new_review_def)

lemma example_id: "''rv_0a1b2c3d'' = ''rv_'' @ take 8 ''0a1b2c3d4e5f''"
  by simp

lemma example_fresh: "find (\<lambda>r. id_key r = ''rv_0a1b2c3d'') [] = None"
  by simp

lemma example_scheduled_store:
  "snd (schedule_review whole_days Absent ''Docker Basics'' ''notes/docker.md'' 1 ''0a1b2c3d4e5f''
     example_now) = example_store"
  by (simp add: example_scheduled)

lemma example_complete_moderate:
  "complete whole_days example_review ''moderate'' None example_now
     = Inr (example_review\<lparr>repetitions := 1, ease_factor := 2.36, interval_days := 1,
              last_performance := Some ''moderate''\<rparr>)"
  by (simp add: complete_def performance_map_def sm2_def whole_days_1 example_review_def
        new_review_def)

lemma example_run_moderate:
  "run whole_days example_store [Complete ''rv_0a1b2c3d'' ''moderate'' None example_now]
     = Parsed (JObject [(''reviews'', JReviews [example_review\<lparr>repetitions := 1,
         ease_factor := 2.36, interval_days := 1, last_performance := Some ''moderate''\<rparr>])])"
  using example_complete_moderate
  by (simp add: run_def complete_review_def example_store_def save_json_file_def
        example_review_def new_review_def)

lemma example_run_strong:
  "run whole_days example_store [Complete ''rv_0a1b2c3d'' ''strong'' None example_now]
     = Parsed (JObject [(''reviews'', JReviews [example_review\<lparr>repetitions := 1,
         interval_days := 1, last_performance := Some ''strong''\<rparr>])])"
  using example_complete_strong
  by (simp add: run_def complete_review_def example_store_def save_json_file_def
        example_review_def new_review_def)

lemma whole_days_6: "whole_days example_now 6 = Some (example_now\<lparr>day := 16\<rparr>)"
  by (simp add: whole_days_def example_now_def)

lemma example_complete_strong_again:
  "complete whole_days (example_review\<lparr>repetitions := 1, interval_days := 1,
       last_performance := Some ''strong''\<rparr>) ''strong'' None example_now
     = Inr (example_review\<lparr>repetitions := 2, interval_days := 6,
              next_review := example_now\<lparr>day := 16\<rparr>, last_performance := Some ''strong''\<rparr>)"
  by (simp add: complete_def performance_map_strong sm2_def whole_days_def example_now_def
        example_review_def new_review_def)

subsection \<open>The claims\<close>

text \<open>
  C1. A completion of an existing review whose performance maps to a quality of at least 3
  stores the interval 1 when the review had 0 repetitions, 6 when it had 1, and otherwise
  the product of the interval and the ease factor the review had before the call; it
  stores the repetitions incremented by 1. The call returns whenever \<open>now\<close> plus that
  interval is a datetime.
\<close>

theorem complete_review_success:
  assumes "lookup_review f i = Some r" "performance_map p = Some q" "3 \<le> q"
    and "plus_days now (if repetitions r = 0 then 1 else if repetitions r = 1 then 6
                        else interval_days r * ease_factor r) = Some t"
  shows "\<exists>r' f'. complete_review plus_days f i p n now
               = (Inr (ReviewCompleted t (interval_days r')), f')
      \<and> lookup_review f' i = Some r'
      \<and> interval_days r' = (if repetitions r = 0 then 1 else if repetitions r = 1 then 6
                             else interval_days r * ease_factor r)
      \<and> repetitions r' = repetitions r + 1"
proof -
  note s = sm2_success[OF assms(3), of r]
  obtain r' where c: "complete plus_days r p n now = Inr r'"
    using complete_succeeds[OF assms(2), of plus_days now r t n] assms(4) s(1) by auto
  from complete_fields[OF c assms(2)] s assms(4) complete_review_found[OF assms(1) c]
  show ?thesis by auto
qed

theorem complete_review_success_witness:
  "\<exists>r' f'. complete_review whole_days (Parsed (JObject [(''reviews'',
         JReviews [example_review\<lparr>repetitions := 2, interval_days := 6\<rparr>])]))
         ''rv_0a1b2c3d'' ''strong'' None example_now
       = (Inr (ReviewCompleted (example_now\<lparr>day := 25\<rparr>) (interval_days r')), f')
      \<and> lookup_review f' ''rv_0a1b2c3d'' = Some r' \<and> interval_days r' = 15 \<and> repetitions r' = 3"
proof -
  have h: "whole_days example_now
     (if repetitions (example_review\<lparr>repetitions := 2, interval_days := 6\<rparr>) = 0 then 1
      else if repetitions (example_review\<lparr>repetitions := 2, interval_days := 6\<rparr>) = 1 then 6
      else interval_days (example_review\<lparr>repetitions := 2, interval_days := 6\<rparr>)
           * ease_factor (example_review\<lparr>repetitions := 2, interval_days := 6\<rparr>))
     = Some (example_now\<lparr>day := 25\<rparr>)"
    using whole_days_15 by (simp add: example_review_def new_review_def)
  have q: "(3::int) \<le> 4" by simp
  show ?thesis
    using complete_review_success[where n = None and plus_days = whole_days
        and now = example_now, OF example_lookup_third performance_map_strong q h]
    by (simp add: example_review_def new_review_def)
qed

text \<open>
  C2. Take a store holding a collection of reviews, a \<^verbatim>\<open>schedule_review\<close> call on it
  that returns and draws an id not in the store, and any sequence of tool calls after
  it. The store then holds the review under that id with an ease factor of at least 1.3.
  A further \<^verbatim>\<open>complete_review\<close> call on it with one of the four tiers whose next date
  is a datetime returns and stores, for a quality of at least 3, the maximum of 1.3 and
  the formula on the ease factor stored before the call, and for a lower quality the
  ease factor stored before the call; either is at least 1.3. A call that does not
  complete leaves the stored review, and so its ease factor, as it was.
\<close>

theorem ease_factor_floor:
  assumes "stored_reviews f0 = Inr rs"
    and "i = ''rv_'' @ take 8 u" and "find (\<lambda>r. id_key r = i) rs = None"
    and "plus_days now0 d = Some t0"
    and "f = run plus_days (snd (schedule_review plus_days f0 tp np d u now0)) calls"
  shows "\<exists>r. lookup_review f i = Some r \<and> 1.3 \<le> ease_factor r
     \<and> (\<forall>p n now q t. performance_map p = Some q \<longrightarrow>
          plus_days now (if 3 \<le> q then (if repetitions r = 0 then 1 else if repetitions r = 1 then 6
                                         else interval_days r * ease_factor r) else 1) = Some t \<longrightarrow>
          (\<exists>r' f'. complete_review plus_days f i p n now
                     = (Inr (ReviewCompleted t (interval_days r')), f')
             \<and> lookup_review f' i = Some r'
             \<and> ease_factor r' =
                 (if 3 \<le> q
                  then max 1.3 (ease_factor r +
                         (0.1 - (5 - of_int q) * (0.08 + (5 - of_int q) * 0.02)))
                  else ease_factor r)
             \<and> 1.3 \<le> ease_factor r'))
     \<and> (\<forall>p n now. (\<forall>t x. fst (complete_review plus_days f i p n now) \<noteq> Inr (ReviewCompleted t x)) \<longrightarrow>
          lookup_review (snd (complete_review plus_days f i p n now)) i = Some r)"
proof -
  from scheduled_run[where plus_days = plus_days and ?now0.0 = now0 and d = d and tp = tp
      and np = np and calls = calls, OF assms(1) assms(3)[unfolded assms(2)] assms(4)]
  obtain r where r: "lookup_review f i = Some r"
    and inv: "1.3 \<le> ease_factor r \<and> 0 \<le> repetitions r \<and> (1 \<le> repetitions r \<longrightarrow> 0 < interval_days r)"
    unfolding assms(2) assms(5) by blast
  have succ: "\<exists>r' f'. complete_review plus_days f i p n now
                     = (Inr (ReviewCompleted t (interval_days r')), f')
             \<and> lookup_review f' i = Some r'
             \<and> ease_factor r' =
                 (if 3 \<le> q
                  then max 1.3 (ease_factor r +
                         (0.1 - (5 - of_int q) * (0.08 + (5 - of_int q) * 0.02)))
                  else ease_factor r)
             \<and> 1.3 \<le> ease_factor r'"
    if q: "performance_map p = Some q"
      and t: "plus_days now (if 3 \<le> q then (if repetitions r = 0 then 1 else if repetitions r = 1 then 6
                                         else interval_days r * ease_factor r) else 1) = Some t"
    for p n now q t
  proof -
    have t': "plus_days now (fst (sm2 r q)) = Some t" using t by (simp only: sm2_interval)
    from complete_review_stores[where n = n and plus_days = plus_days and now = now, OF r q t'] obtain r' f' where
      c: "complete_review plus_days f i p n now = (Inr (ReviewCompleted t (interval_days r')), f')"
        "lookup_review f' i = Some r'" "complete plus_days r p n now = Inr r'"
      by blast
    have e: "ease_factor r' = (if 3 \<le> q
                  then max 1.3 (ease_factor r +
                         (0.1 - (5 - of_int q) * (0.08 + (5 - of_int q) * 0.02)))
                  else ease_factor r)"
      using complete_fields(2)[OF c(3) q] by (simp only: sm2_ease)
    have "1.3 \<le> ease_factor r'" using complete_invariant[OF c(3) inv] by simp
    with c e show ?thesis by blast
  qed
  have fail: "lookup_review (snd (complete_review plus_days f i p n now)) i = Some r"
    if "\<forall>t x. fst (complete_review plus_days f i p n now) \<noteq> Inr (ReviewCompleted t x)"
    for p n now
    using complete_review_unchanged[OF that] r by simp
  from r inv succ fail show ?thesis by blast
qed

theorem ease_factor_floor_witness:
  "\<exists>r. lookup_review
          (run whole_days (snd (schedule_review whole_days Absent ''Docker Basics''
              ''notes/docker.md'' 1 ''0a1b2c3d4e5f'' example_now))
            [Complete ''rv_0a1b2c3d'' ''moderate'' None example_now]) ''rv_0a1b2c3d'' = Some r
     \<and> 1.3 \<le> ease_factor r \<and> ease_factor r = 2.36
     \<and> (\<exists>r' f'. complete_review whole_days
          (run whole_days (snd (schedule_review whole_days Absent ''Docker Basics''
              ''notes/docker.md'' 1 ''0a1b2c3d4e5f'' example_now))
            [Complete ''rv_0a1b2c3d'' ''moderate'' None example_now])
          ''rv_0a1b2c3d'' ''perfect'' None example_now
            = (Inr (ReviewCompleted (example_now\<lparr>day := 16\<rparr>) (interval_days r')), f')
         \<and> lookup_review f' ''rv_0a1b2c3d'' = Some r' \<and> ease_factor r' = 2.46)"
proof -
  let ?F = "run whole_days (snd (schedule_review whole_days Absent ''Docker Basics''
              ''notes/docker.md'' 1 ''0a1b2c3d4e5f'' example_now))
            [Complete ''rv_0a1b2c3d'' ''moderate'' None example_now]"
  let ?R = "example_review\<lparr>repetitions := 1, ease_factor := 2.36, interval_days := 1,
              last_performance := Some ''moderate''\<rparr>"
  have L: "lookup_review ?F ''rv_0a1b2c3d'' = Some ?R"
    unfolding example_scheduled_store example_run_moderate
    by (simp add: lookup_review_def stored_reviews_def example_review_def new_review_def)
  from ease_factor_floor[where plus_days = whole_days and ?f0.0 = Absent and rs = "[]"
      and i = "''rv_0a1b2c3d''" and u = "''0a1b2c3d4e5f''" and ?now0.0 = example_now and d = 1
      and ?t0.0 = "example_now\<lparr>day := 11\<rparr>" and tp = "''Docker Basics''"
      and np = "''notes/docker.md''"
      and calls = "[Complete ''rv_0a1b2c3d'' ''moderate'' None example_now]" and f = ?F,
      OF stored_absent example_id example_fresh whole_days_1 refl]
  obtain r where r: "lookup_review ?F ''rv_0a1b2c3d'' = Some r" "1.3 \<le> ease_factor r"
    and step: "\<And>p n now q t. performance_map p = Some q \<Longrightarrow>
          whole_days now (if 3 \<le> q then (if repetitions r = 0 then 1 else if repetitions r = 1 then 6
                                         else interval_days r * ease_factor r) else 1) = Some t \<Longrightarrow>
          (\<exists>r' f'. complete_review whole_days ?F ''rv_0a1b2c3d'' p n now
                     = (Inr (ReviewCompleted t (interval_days r')), f')
             \<and> lookup_review f' ''rv_0a1b2c3d'' = Some r'
             \<and> ease_factor r' =
                 (if 3 \<le> q
                  then max 1.3 (ease_factor r +
                         (0.1 - (5 - of_int q) * (0.08 + (5 - of_int q) * 0.02)))
                  else ease_factor r)
             \<and> 1.3 \<le> ease_factor r')"
    by blast
  have eq: "r = ?R" using r(1) L by simp
  have e: "ease_factor r = 2.36" "repetitions r = 1"
    unfolding eq by (simp_all add: example_review_def new_review_def)
  have t: "whole_days example_now (if (3::int) \<le> 5 then (if repetitions r = 0 then 1
             else if repetitions r = 1 then 6 else interval_days r * ease_factor r) else 1)
           = Some (example_now\<lparr>day := 16\<rparr>)"
    using e(2) whole_days_6 by simp
  from step[OF performance_map_perfect t, of None] obtain r' f' where
    c: "complete_review whole_days ?F ''rv_0a1b2c3d'' ''perfect'' None example_now
          = (Inr (ReviewCompleted (example_now\<lparr>day := 16\<rparr>) (interval_days r')), f')"
      "lookup_review f' ''rv_0a1b2c3d'' = Some r'"
      "ease_factor r' = (if (3::int) \<le> 5
                  then max 1.3 (ease_factor r +
                         (0.1 - (5 - of_int 5) * (0.08 + (5 - of_int 5) * 0.02)))
                  else ease_factor r)"
    by blast
  have "ease_factor r' = 2.46" using c(3) e(1) by simp
  with r e(1) c(1,2) show ?thesis by blast
qed

text \<open>
  C3. A completion of an existing review with performance "weak" leaves the stored
  review with \<open>repetitions = 0\<close> and \<open>interval_days = 1\<close> and does not change its
  \<open>ease_factor\<close>, whatever the review was before (the next date, one day after \<open>now\<close>,
  being a datetime).
\<close>

theorem complete_review_weak:
  assumes "lookup_review f i = Some r" "plus_days now 1 = Some t"
  shows "\<exists>r' f'. complete_review plus_days f i ''weak'' n now = (Inr (ReviewCompleted t 1), f')
      \<and> lookup_review f' i = Some r' \<and> repetitions r' = 0 \<and> interval_days r' = 1
      \<and> ease_factor r' = ease_factor r"
proof -
  have s: "sm2 r 0 = (1, r\<lparr>repetitions := 0\<rparr>)" by (simp add: sm2_def)
  obtain r' where c: "complete plus_days r ''weak'' n now = Inr r'"
    using complete_succeeds[OF performance_map_weak, of plus_days now r t n] assms(2) s by auto
  from complete_fields[OF c performance_map_weak] s assms(2) complete_review_found[OF assms(1) c]
  show ?thesis by auto
qed

theorem complete_review_weak_witness:
  "\<exists>r' f'. complete_review whole_days example_store ''rv_0a1b2c3d'' ''weak'' None example_now
        = (Inr (ReviewCompleted (example_now\<lparr>day := 11\<rparr>) 1), f')
      \<and> lookup_review f' ''rv_0a1b2c3d'' = Some r' \<and> repetitions r' = 0 \<and> interval_days r' = 1
      \<and> ease_factor r' = ease_factor example_review"
  using complete_review_weak[where plus_days = whole_days and n = None,
      OF example_lookup whole_days_1]
  by simp

text \<open>
  C4. A completion whose id matches no review of the store returns the not-found text and
  leaves the store file as it was. Whenever a completion call does not complete (the id
  is unknown, the performance is not one of the four tiers and the lookup raises KeyError,
  or any other error), the store file after the call is the store file before it.
\<close>

theorem complete_review_failure_no_write:
  "(stored_reviews f = Inr rs \<and> find (\<lambda>r. id_key r = i) rs = None \<longrightarrow>
      complete_review plus_days f i p n now = (Inr (ReviewNotFound i), f))
   \<and> ((\<forall>t x. fst (complete_review plus_days f i p n now) \<noteq> Inr (ReviewCompleted t x)) \<longrightarrow>
        snd (complete_review plus_days f i p n now) = f)
   \<and> (performance_map p = None \<longrightarrow>
        snd (complete_review plus_days f i p n now) = f
        \<and> (\<forall>t x. fst (complete_review plus_days f i p n now) \<noteq> Inr (ReviewCompleted t x))
        \<and> (\<forall>r. lookup_review f i = Some r \<longrightarrow>
              fst (complete_review plus_days f i p n now) = Inl (KeyError p)))"
  using complete_review_not_found[where f = f and rs = rs and i = i and plus_days = plus_days
      and p = p and n = n and now = now]
    complete_review_unchanged[where f = f and i = i and plus_days = plus_days
      and p = p and n = n and now = now]
    complete_review_invalid_performance[where f = f and i = i and plus_days = plus_days
      and p = p and n = n and now = now]
  by blast

theorem complete_review_failure_no_write_witness:
  "complete_review whole_days example_store ''rv_invalid'' ''strong'' None example_now
     = (Inr (ReviewNotFound ''rv_invalid''), example_store)
   \<and> snd (complete_review whole_days example_store ''rv_invalid'' ''strong'' None example_now)
     = example_store
   \<and> complete_review whole_days example_store ''rv_0a1b2c3d'' ''excellent'' None example_now
     = (Inl (KeyError ''excellent''), example_store)"
  using complete_review_failure_no_write[where f = example_store and rs = "[example_review]"
      and i = "''rv_invalid''" and plus_days = whole_days and p = "''strong''" and n = None
      and now = example_now]
    complete_review_failure_no_write[where f = example_store and rs = "[example_review]"
      and i = "''rv_0a1b2c3d''" and plus_days = whole_days and p = "''excellent''" and n = None
      and now = example_now]
    example_stored example_find_none performance_map_excellent example_lookup
  by (simp add: prod_eq_iff)

text \<open>
  C5. On a store holding a collection of reviews (whose dates are datetimes),
  \<^verbatim>\<open>get_due_reviews\<close> at \<open>now\<close> lists exactly the reviews whose next review date
  is at most \<open>now\<close>, each as often as the store holds it, in ascending order of that
  date; it returns the no-reviews-due text, not an error, when none is due; and it
  leaves the store file as it was.
\<close>

theorem get_due_reviews_listing:
  assumes "stored_reviews f = Inr rs" "\<forall>r \<in> set rs. valid_datetime (next_review r)"
  shows "snd (get_due_reviews f now) = f
     \<and> (filter (\<lambda>r. datetime_le (next_review r) now) rs = [] \<longrightarrow>
          fst (get_due_reviews f now) = Inr NoReviewsDue)
     \<and> (filter (\<lambda>r. datetime_le (next_review r) now) rs \<noteq> [] \<longrightarrow>
          (\<exists>out. fst (get_due_reviews f now) = Inr (ReviewsDue out)
             \<and> mset out = mset (filter (\<lambda>r. datetime_le (next_review r) now) rs)
             \<and> sorted_wrt (\<lambda>a b. datetime_le (next_review a) (next_review b)) out))"
proof -
  have "\<forall>r \<in> set (filter (\<lambda>r. datetime_le (next_review r) now) rs). valid_datetime (next_review r)"
    using assms(2) by simp
  from sort_by_isoformat[OF this] show ?thesis
    by (simp add: get_due_reviews_result[OF assms(1)])
qed

theorem get_due_reviews_listing_witness:
  "snd (get_due_reviews (Parsed (JObject [(''reviews'', JReviews example_due)])) example_now)
     = Parsed (JObject [(''reviews'', JReviews example_due)])
   \<and> (\<exists>out. fst (get_due_reviews (Parsed (JObject [(''reviews'', JReviews example_due)])) example_now)
              = Inr (ReviewsDue out)
          \<and> mset out = mset
              [example_review\<lparr>id_key := ''rv_00000002'', next_review := example_now\<lparr>day := 9\<rparr>\<rparr>,
               example_review\<lparr>id_key := ''rv_00000003'',
                  next_review := example_now\<lparr>day := 8, microsecond := 250\<rparr>\<rparr>]
          \<and> sorted_wrt (\<lambda>a b. datetime_le (next_review a) (next_review b)) out)
   \<and> fst (get_due_reviews (Parsed (JObject [(''reviews'', JReviews example_due)])) example_now)
       = Inr (ReviewsDue
           [example_review\<lparr>id_key := ''rv_00000003'',
              next_review := example_now\<lparr>day := 8, microsecond := 250\<rparr>\<rparr>,
            example_review\<lparr>id_key := ''rv_00000002'', next_review := example_now\<lparr>day := 9\<rparr>\<rparr>])"
proof -
  have ne: "filter (\<lambda>r. datetime_le (next_review r) example_now) example_due \<noteq> []"
    by (simp only: example_due_filter) simp
  have listed: "get_due_reviews (Parsed (JObject [(''reviews'', JReviews example_due)])) example_now
       = (Inr (ReviewsDue
           [example_review\<lparr>id_key := ''rv_00000003'',
              next_review := example_now\<lparr>day := 8, microsecond := 250\<rparr>\<rparr>,
            example_review\<lparr>id_key := ''rv_00000002'', next_review := example_now\<lparr>day := 9\<rparr>\<rparr>]),
          Parsed (JObject [(''reviews'', JReviews example_due)]))"
    unfolding get_due_reviews_result[OF example_due_stored] example_due_filter example_due_sorted
    by simp
  from get_due_reviews_listing[where now = example_now, OF example_due_stored example_due_valid] ne
  have "snd (get_due_reviews (Parsed (JObject [(''reviews'', JReviews example_due)])) example_now)
     = Parsed (JObject [(''reviews'', JReviews example_due)])
   \<and> (\<exists>out. fst (get_due_reviews (Parsed (JObject [(''reviews'', JReviews example_due)])) example_now)
              = Inr (ReviewsDue out)
          \<and> mset out = mset (filter (\<lambda>r. datetime_le (next_review r) example_now) example_due)
          \<and> sorted_wrt (\<lambda>a b. datetime_le (next_review a) (next_review b)) out)"
    by blast
  then show ?thesis unfolding example_due_filter using listed by simp
qed

text \<open>
  C6. On a store holding a collection of reviews (or an absent or unparseable file),
  a \<^verbatim>\<open>schedule_review\<close> call whose date \<open>now\<close> plus the interval is a datetime appends
  a review to the saved store with 0 repetitions, the ease factor 2.5, the interval and
  the next review date of the call, and an empty log.
\<close>

theorem schedule_review_creates:
  assumes "stored_reviews f = Inr rs" "plus_days now d = Some t"
  shows "\<exists>r f'. schedule_review plus_days f tp np d u now = (Inr (ReviewScheduled tp t), f')
      \<and> stored_reviews f' = Inr (rs @ [r])
      \<and> repetitions r = 0 \<and> ease_factor r = 2.5 \<and> interval_days r = d \<and> next_review r = t
      \<and> review_log r = [] \<and> created_at r = now \<and> topic r = tp \<and> note_path r = np"
  using schedule_review_result[where tp = tp and np = np and u = u and plus_days = plus_days
      and now = now and d = d, OF assms] stored_saved[OF assms(1)]
  by (simp add: new_review_def review_log_def)

theorem schedule_review_creates_witness:
  "\<exists>r f'. schedule_review whole_days Absent ''Docker Basics'' ''notes/docker.md'' 1
              ''0a1b2c3d4e5f'' example_now
         = (Inr (ReviewScheduled ''Docker Basics'' (example_now\<lparr>day := 11\<rparr>)), f')
      \<and> stored_reviews f' = Inr ([] @ [r])
      \<and> repetitions r = 0 \<and> ease_factor r = 2.5 \<and> interval_days r = 1
      \<and> next_review r = example_now\<lparr>day := 11\<rparr>
      \<and> review_log r = [] \<and> created_at r = example_now \<and> topic r = ''Docker Basics''
      \<and> note_path r = ''notes/docker.md''"
  using schedule_review_creates[where plus_days = whole_days and now = example_now and d = 1
      and tp = "''Docker Basics''" and np = "''notes/docker.md''" and u = "''0a1b2c3d4e5f''",
      OF stored_absent whole_days_1] .

text \<open>
  C7, as stated, fails: the review \<^verbatim>\<open>schedule_review\<close> stores for "Docker Basics",
  completed with performance "strong", is stored with the ease factor 2.5, which is not
  greater than 2.5 (the adjustment for quality 4 is 0.1 - 1 * (0.08 + 1 * 0.02) = 0).
\<close>

theorem first_strong_counterexample:
  "snd (schedule_review whole_days Absent ''Docker Basics'' ''notes/docker.md'' 1 ''0a1b2c3d4e5f''
          example_now) = example_store
   \<and> lookup_review
         (snd (complete_review whole_days example_store ''rv_0a1b2c3d'' ''strong'' None example_now))
         ''rv_0a1b2c3d''
       = Some (example_review\<lparr>repetitions := 1, interval_days := 1,
                 last_performance := Some ''strong''\<rparr>)
   \<and> \<not> 2.5 < ease_factor (example_review\<lparr>repetitions := 1, interval_days := 1,
                 last_performance := Some ''strong''\<rparr>)"
proof -
  have "complete_review whole_days example_store ''rv_0a1b2c3d'' ''strong'' None example_now
     = (Inr (ReviewCompleted (example_now\<lparr>day := 11\<rparr>) 1),
        Parsed (JObject [(''reviews'', JReviews [example_review\<lparr>repetitions := 1,
           interval_days := 1, last_performance := Some ''strong''\<rparr>])]))"
    using example_complete_strong
    by (simp add: complete_review_def stored_reviews_def example_store_def save_json_file_def
          example_review_def new_review_def)
  then show ?thesis
    by (simp add: example_scheduled lookup_review_def stored_reviews_def example_review_def
          new_review_def)
qed

text \<open>
  C7, amended. Completing a stored review that has 0 repetitions and the ease factor 2.5
  with performance "strong" stores 1 repetition, the interval 1 and the ease factor 2.5,
  unchanged.
\<close>

theorem complete_review_first_strong:
  assumes "lookup_review f i = Some r" "repetitions r = 0" "ease_factor r = 2.5"
    and "plus_days now 1 = Some t"
  shows "\<exists>r' f'. complete_review plus_days f i ''strong'' n now = (Inr (ReviewCompleted t 1), f')
      \<and> lookup_review f' i = Some r' \<and> repetitions r' = 1 \<and> interval_days r' = 1
      \<and> ease_factor r' = 2.5"
proof -
  have s: "fst (sm2 r 4) = 1" "repetitions (snd (sm2 r 4)) = 1" "ease_factor (snd (sm2 r 4)) = 2.5"
    using assms(2,3) by (simp_all add: sm2_def Let_def)
  obtain r' where c: "complete plus_days r ''strong'' n now = Inr r'"
    using complete_succeeds[OF performance_map_strong, of plus_days now r t n] assms(4) s(1) by auto
  from complete_fields[OF c performance_map_strong] s assms(4) complete_review_found[OF assms(1) c]
  show ?thesis by auto
qed

theorem complete_review_first_strong_witness:
  "\<exists>r' f'. complete_review whole_days example_store ''rv_0a1b2c3d'' ''strong'' None example_now
        = (Inr (ReviewCompleted (example_now\<lparr>day := 11\<rparr>) 1), f')
      \<and> lookup_review f' ''rv_0a1b2c3d'' = Some r' \<and> repetitions r' = 1 \<and> interval_days r' = 1
      \<and> ease_factor r' = 2.5"
proof -
  have a: "repetitions example_review = 0" and b: "ease_factor example_review = 2.5"
    by (simp_all add: example_review_def new_review_def)
  show ?thesis
    using complete_review_first_strong[where plus_days = whole_days and n = None,
        OF example_lookup a b whole_days_1]
    by simp
qed

text \<open>
  C8, as stated, fails on both counts: \<^verbatim>\<open>schedule_review\<close> with the empty topic
  returns the scheduled text and saves a review whose topic is empty, and a call with a
  non-empty topic and an interval of 1000000000 days raises OverflowError.
\<close>

theorem schedule_review_topic_counterexample:
  "schedule_review whole_days Absent '''' ''notes/docker.md'' 1 ''0a1b2c3d4e5f'' example_now
     = (Inr (ReviewScheduled '''' (example_now\<lparr>day := 11\<rparr>)),
        Parsed (JObject [(''reviews'', JReviews [new_review ''rv_0a1b2c3d'' '''' ''notes/docker.md''
           example_now (example_now\<lparr>day := 11\<rparr>) 1])]))
   \<and> schedule_review whole_days Absent ''Docker Basics'' ''notes/docker.md'' 1000000000
        ''0a1b2c3d4e5f'' example_now
     = (Inl OverflowError, Absent)"
  by (simp add: schedule_review_def whole_days_1 whole_days_too_many reviews_default_def
        save_json_file_def)

text \<open>
  C8, amended. \<^verbatim>\<open>schedule_review\<close> does not validate the topic. On a store holding a
  collection of reviews (or an absent or unparseable file), a call with any topic, empty
  or not, saves the new review whenever \<open>now\<close> plus the interval is a datetime; when it is
  not, the call raises OverflowError and leaves the store file as it was.
\<close>

theorem schedule_review_any_topic:
  assumes "stored_reviews f = Inr rs"
  shows "(\<forall>t. plus_days now d = Some t \<longrightarrow>
            (\<exists>f'. schedule_review plus_days f tp np d u now = (Inr (ReviewScheduled tp t), f')
               \<and> stored_reviews f' = Inr (rs @ [new_review (''rv_'' @ take 8 u) tp np now t d])))
       \<and> (plus_days now d = None \<longrightarrow>
            schedule_review plus_days f tp np d u now = (Inl OverflowError, f))"
  using schedule_review_result[where tp = tp and np = np and u = u and plus_days = plus_days
      and now = now and d = d, OF assms] stored_saved[OF assms]
    schedule_review_overflow[where tp = tp and np = np and u = u and plus_days = plus_days
      and now = now and d = d and f = f]
  by simp

theorem schedule_review_any_topic_witness:
  "(\<exists>f'. schedule_review whole_days Absent '''' ''notes/docker.md'' 1 ''0a1b2c3d4e5f'' example_now
           = (Inr (ReviewScheduled '''' (example_now\<lparr>day := 11\<rparr>)), f')
         \<and> stored_reviews f' = Inr ([] @ [new_review (''rv_'' @ take 8 ''0a1b2c3d4e5f'') ''''
              ''notes/docker.md'' example_now (example_now\<lparr>day := 11\<rparr>) 1]))
   \<and> schedule_review whole_days Absent ''Docker Basics'' ''notes/docker.md'' 1000000000
        ''0a1b2c3d4e5f'' example_now = (Inl OverflowError, Absent)"
  using schedule_review_any_topic[where plus_days = whole_days and now = example_now and d = 1
        and tp = "''''" and np = "''notes/docker.md''" and u = "''0a1b2c3d4e5f''", OF stored_absent]
      schedule_review_any_topic[where plus_days = whole_days and now = example_now
        and d = 1000000000 and tp = "''Docker Basics''" and np = "''notes/docker.md''"
        and u = "''0a1b2c3d4e5f''", OF stored_absent]
      whole_days_1 whole_days_too_many
  by simp

text \<open>
  C9. Take a store holding a collection of reviews, a \<^verbatim>\<open>schedule_review\<close> call on it
  that returns and draws an id not in the store, and any sequence of tool calls after
  it. A \<^verbatim>\<open>complete_review\<close> call with performance "strong" on the review then stored
  under that id returns (its next date being a datetime) and stores an interval; a second
  such call on the store it leaves returns (its next date being a datetime) and stores a
  strictly larger interval.
\<close>

theorem two_strong_completions_grow:
  assumes "stored_reviews f0 = Inr rs"
    and "i = ''rv_'' @ take 8 u" and "find (\<lambda>r. id_key r = i) rs = None"
    and "plus_days now0 d = Some t0"
    and "f = run plus_days (snd (schedule_review plus_days f0 tp np d u now0)) calls"
    and "lookup_review f i = Some r"
    and "plus_days now1 (if repetitions r = 0 then 1 else if repetitions r = 1 then 6
                         else interval_days r * ease_factor r) = Some t1"
  shows "\<exists>r1 f1. complete_review plus_days f i ''strong'' n1 now1
               = (Inr (ReviewCompleted t1 (interval_days r1)), f1)
      \<and> lookup_review f1 i = Some r1
      \<and> (\<forall>n2 now2 t2.
            plus_days now2 (if repetitions r1 = 0 then 1 else if repetitions r1 = 1 then 6
                            else interval_days r1 * ease_factor r1) = Some t2 \<longrightarrow>
            (\<exists>r2 f2. complete_review plus_days f1 i ''strong'' n2 now2
                       = (Inr (ReviewCompleted t2 (interval_days r2)), f2)
               \<and> lookup_review f2 i = Some r2
               \<and> interval_days r1 < interval_days r2))"
proof -
  from scheduled_run[where plus_days = plus_days and ?now0.0 = now0 and d = d and tp = tp
      and np = np and calls = calls, OF assms(1) assms(3)[unfolded assms(2)] assms(4)]
  have inv: "1.3 \<le> ease_factor r \<and> 0 \<le> repetitions r \<and> (1 \<le> repetitions r \<longrightarrow> 0 < interval_days r)"
    using assms(6) unfolding assms(2) assms(5) by auto
  have q: "(3::int) \<le> 4" by simp
  have t1: "plus_days now1 (fst (sm2 r 4)) = Some t1" using assms(7) by (simp add: sm2_interval)
  from complete_review_stores[where n = n1 and plus_days = plus_days and now = now1,
      OF assms(6) performance_map_strong t1]
  obtain r1 f1 where
    c1: "complete_review plus_days f i ''strong'' n1 now1
           = (Inr (ReviewCompleted t1 (interval_days r1)), f1)"
      "lookup_review f1 i = Some r1" "complete plus_days r ''strong'' n1 now1 = Inr r1"
    by blast
  note inv1 = complete_invariant[OF c1(3) inv]
  note f1 = complete_fields[OF c1(3) performance_map_strong]
  have i1: "interval_days r1 = (if repetitions r = 0 then 1 else if repetitions r = 1 then 6
                               else interval_days r * ease_factor r)"
    and n1: "repetitions r1 = repetitions r + 1"
    using f1(1,3) sm2_success(1,2)[OF q, of r] by simp_all
  have e1: "1.3 \<le> ease_factor r1" using inv1 by simp
  have second: "\<exists>r2 f2. complete_review plus_days f1 i ''strong'' n2 now2
                       = (Inr (ReviewCompleted t2 (interval_days r2)), f2)
               \<and> lookup_review f2 i = Some r2
               \<and> interval_days r1 < interval_days r2"
    if t2: "plus_days now2 (if repetitions r1 = 0 then 1 else if repetitions r1 = 1 then 6
                            else interval_days r1 * ease_factor r1) = Some t2"
    for n2 now2 t2
  proof -
    have t2': "plus_days now2 (fst (sm2 r1 4)) = Some t2" using t2 by (simp add: sm2_interval)
    from complete_review_stores[where n = n2 and plus_days = plus_days and now = now2,
        OF c1(2) performance_map_strong t2']
    obtain r2 f2 where
      c2: "complete_review plus_days f1 i ''strong'' n2 now2
             = (Inr (ReviewCompleted t2 (interval_days r2)), f2)"
        "lookup_review f2 i = Some r2" "complete plus_days r1 ''strong'' n2 now2 = Inr r2"
      by blast
    note f2 = complete_fields[OF c2(3) performance_map_strong]
    have i2: "interval_days r2 = (if repetitions r1 = 0 then 1 else if repetitions r1 = 1 then 6
                                 else interval_days r1 * ease_factor r1)"
      using f2(3) sm2_success(1)[OF q, of r1] by simp
    consider "repetitions r = 0" | "repetitions r = 1" | "2 \<le> repetitions r"
      using inv by linarith
    then have "interval_days r1 < interval_days r2"
    proof cases
      case 1
      then show ?thesis using i1 i2 n1 by simp
    next
      case 2
      then have "interval_days r1 = 6" "interval_days r2 = 6 * ease_factor r1"
        using i1 i2 n1 by simp_all
      then show ?thesis using e1 by simp
    next
      case 3
      then have p: "0 < interval_days r1" using inv1 n1 by simp
      have "interval_days r2 = interval_days r1 * ease_factor r1" using 3 i2 n1 by simp
      moreover have "interval_days r1 * 1 < interval_days r1 * ease_factor r1"
        using p e1 by (intro mult_strict_left_mono) simp_all
      ultimately show ?thesis by simp
    qed
    with c2 show ?thesis by blast
  qed
  from c1 second show ?thesis by blast
qed

theorem two_strong_completions_grow_witness:
  "\<exists>r1 f1. complete_review whole_days
        (run whole_days (snd (schedule_review whole_days Absent ''Docker Basics''
            ''notes/docker.md'' 1 ''0a1b2c3d4e5f'' example_now))
          [Complete ''rv_0a1b2c3d'' ''strong'' None example_now])
        ''rv_0a1b2c3d'' ''strong'' None example_now
          = (Inr (ReviewCompleted (example_now\<lparr>day := 16\<rparr>) (interval_days r1)), f1)
      \<and> lookup_review f1 ''rv_0a1b2c3d'' = Some r1
      \<and> (\<exists>r2 f2. complete_review whole_days f1 ''rv_0a1b2c3d'' ''strong'' None example_now
                   = (Inr (ReviewCompleted (example_now\<lparr>day := 25\<rparr>) (interval_days r2)), f2)
            \<and> lookup_review f2 ''rv_0a1b2c3d'' = Some r2
            \<and> interval_days r1 = 6 \<and> interval_days r2 = 15
            \<and> interval_days r1 < interval_days r2)"
proof -
  let ?F = "run whole_days (snd (schedule_review whole_days Absent ''Docker Basics''
            ''notes/docker.md'' 1 ''0a1b2c3d4e5f'' example_now))
          [Complete ''rv_0a1b2c3d'' ''strong'' None example_now]"
  let ?R = "example_review\<lparr>repetitions := 1, interval_days := 1,
              last_performance := Some ''strong''\<rparr>"
  have L: "lookup_review ?F ''rv_0a1b2c3d'' = Some ?R"
    unfolding example_scheduled_store example_run_strong
    by (simp add: lookup_review_def stored_reviews_def example_review_def new_review_def)
  have t1: "whole_days example_now (if repetitions ?R = 0 then 1 else if repetitions ?R = 1 then 6
              else interval_days ?R * ease_factor ?R) = Some (example_now\<lparr>day := 16\<rparr>)"
    using whole_days_6 by simp
  from two_strong_completions_grow[where plus_days = whole_days and ?f0.0 = Absent and rs = "[]"
      and i = "''rv_0a1b2c3d''" and u = "''0a1b2c3d4e5f''" and ?now0.0 = example_now and d = 1
      and ?t0.0 = "example_now\<lparr>day := 11\<rparr>" and tp = "''Docker Basics''"
      and np = "''notes/docker.md''"
      and calls = "[Complete ''rv_0a1b2c3d'' ''strong'' None example_now]" and f = ?F
      and r = ?R and ?now1.0 = example_now and ?n1.0 = None,
      OF stored_absent example_id example_fresh whole_days_1 refl L t1]
  obtain r1 f1 where
    c1: "complete_review whole_days ?F ''rv_0a1b2c3d'' ''strong'' None example_now
           = (Inr (ReviewCompleted (example_now\<lparr>day := 16\<rparr>) (interval_days r1)), f1)"
      "lookup_review f1 ''rv_0a1b2c3d'' = Some r1"
    and step: "\<And>n2 now2 t2.
            whole_days now2 (if repetitions r1 = 0 then 1 else if repetitions r1 = 1 then 6
                            else interval_days r1 * ease_factor r1) = Some t2 \<Longrightarrow>
            (\<exists>r2 f2. complete_review whole_days f1 ''rv_0a1b2c3d'' ''strong'' n2 now2
                       = (Inr (ReviewCompleted t2 (interval_days r2)), f2)
               \<and> lookup_review f2 ''rv_0a1b2c3d'' = Some r2
               \<and> interval_days r1 < interval_days r2)"
    by blast
  have "complete_review whole_days ?F ''rv_0a1b2c3d'' ''strong'' None example_now
     = (Inr (ReviewCompleted (example_now\<lparr>day := 16\<rparr>) 6),
        Parsed (JObject [(''reviews'', JReviews [example_review\<lparr>repetitions := 2,
          interval_days := 6, next_review := example_now\<lparr>day := 16\<rparr>,
          last_performance := Some ''strong''\<rparr>])]))"
    unfolding example_scheduled_store example_run_strong
    using example_complete_strong_again
    by (simp add: complete_review_def save_json_file_def example_review_def new_review_def)
  with c1 have r1: "interval_days r1 = 6" "repetitions r1 = 2" "ease_factor r1 = 2.5"
    by (auto simp: lookup_review_def stored_reviews_def example_review_def new_review_def)
  have prod15: "interval_days r1 * ease_factor r1 = 15" using r1(1,3) by simp
  have t2: "whole_days example_now (if repetitions r1 = 0 then 1 else if repetitions r1 = 1 then 6
              else interval_days r1 * ease_factor r1) = Some (example_now\<lparr>day := 25\<rparr>)"
    using r1(2) prod15 whole_days_15 by simp
  from step[OF t2, of None] obtain r2 f2 where
    c2: "complete_review whole_days f1 ''rv_0a1b2c3d'' ''strong'' None example_now
           = (Inr (ReviewCompleted (example_now\<lparr>day := 25\<rparr>) (interval_days r2)), f2)"
      "lookup_review f2 ''rv_0a1b2c3d'' = Some r2" "interval_days r1 < interval_days r2"
    by blast
  have "complete_review whole_days f1 ''rv_0a1b2c3d'' ''strong'' None example_now
     = (case complete whole_days r1 ''strong'' None example_now of
          Inl e \<Rightarrow> (Inl e, f1)
        | Inr r' \<Rightarrow> (Inr (ReviewCompleted (next_review r') (interval_days r')),
             save_json_file f1 (set_reviews (load_json_file f1 reviews_default)
               (replace_first (projr (stored_reviews f1)) ''rv_0a1b2c3d'' r'))))"
    using c1(2)
    by (auto simp: complete_review_def lookup_review_def stored_reviews_def Let_def
        split: sum.splits option.splits)
  moreover have "\<exists>r'. complete whole_days r1 ''strong'' None example_now = Inr r'
                  \<and> interval_days r' = 15"
    using r1(2) prod15 whole_days_15
    by (auto simp: complete_def performance_map_strong sm2_def Let_def)
  ultimately have "interval_days r2 = 15" using c2(1) by auto
  with c1 c2 r1(1) show ?thesis by blast
qed

text \<open>
  C10. Loading a file whose text does not parse gives what loading an absent file gives,
  for every default; that is the default itself when it is a dict (as every caller's is)
  or any other truthy value. So the review tools treat such a file as a store without
  reviews: \<^verbatim>\<open>get_due_reviews\<close> finds none due, \<^verbatim>\<open>complete_review\<close> finds no review,
  and \<^verbatim>\<open>schedule_review\<close> answers as on an absent file and saves a document that holds
  the new review only, in place of the text.
\<close>

theorem load_unparseable_as_absent:
  "load_json_file (Unparseable s) d = load_json_file Absent d
   \<and> load_json_file (Unparseable s) (JObject kvs) = JObject kvs
   \<and> (truthy d \<longrightarrow> load_json_file (Unparseable s) d = d)
   \<and> stored_reviews (Unparseable s) = Inr []
   \<and> fst (schedule_review plus_days (Unparseable s) tp np x u now)
       = fst (schedule_review plus_days Absent tp np x u now)
   \<and> (\<forall>t. plus_days now x = Some t \<longrightarrow>
         snd (schedule_review plus_days (Unparseable s) tp np x u now)
           = Parsed (JObject [(''reviews'',
               JReviews [new_review (''rv_'' @ take 8 u) tp np now t x])]))
   \<and> get_due_reviews (Unparseable s) now = (Inr NoReviewsDue, Unparseable s)
   \<and> complete_review plus_days (Unparseable s) i p n now
       = (Inr (ReviewNotFound i), Unparseable s)"
  by (auto simp: stored_reviews_def reviews_default_def schedule_review_def get_due_reviews_def
        complete_review_def save_json_file_def Let_def split: option.splits)

theorem load_unparseable_as_absent_witness:
  "load_json_file (Unparseable ''not json'') reviews_default
     = load_json_file Absent reviews_default
   \<and> load_json_file (Unparseable ''not json'') reviews_default = reviews_default
   \<and> snd (schedule_review whole_days (Unparseable ''not json'') ''Docker Basics''
            ''notes/docker.md'' 1 ''0a1b2c3d4e5f'' example_now) = example_store"
  using load_unparseable_as_absent[where s = "''not json''" and d = reviews_default
      and kvs = "[(''reviews'', JReviews [])]" and plus_days = whole_days and now = example_now
      and x = 1 and tp = "''Docker Basics''" and np = "''notes/docker.md''"
      and u = "''0a1b2c3d4e5f''"] whole_days_1
  by (simp add: reviews_default_def example_store_def example_review_def)

end
